theory Spec2Isabelle
  imports Complex_Main "HOL-Library.Word"
begin

section \<open>Template analyzer: values and data model\<close>

text \<open>
  The analyzer is the class \<open>TemplateAnalyzer\<close>. Its pixel input is a canvas
  \<open>ImageData\<close>: a width, a height and a \<open>Uint8ClampedArray\<close> of RGBA bytes in row
  order. The platform builds such an object with \<open>data.length = 4 * width * height\<close> and with
  both sides positive (\<open>getImageData\<close> refuses an empty rectangle); \<open>wf_image\<close> records that.

  Numbers: indices, counts and byte values are natural numbers. The quantities the source computes
  with fractional constants (brightness, edge magnitudes, text score, average gap, the fractions
  of width and height used as thresholds) are exact rationals here, and \<open>NaN\<close> is
  \<open>None\<close>. An IEEE double rounds where a rational does not, so a comparison of the source can
  differ from the one written here only when the exact value lies within rounding error of the
  threshold.
\<close>

type_synonym byte = "8 word"

record imageData =
  width :: nat
  height :: nat
  data :: "byte list"

definition wf_image :: "imageData \<Rightarrow> bool" where
  "wf_image img \<longleftrightarrow>
     0 < width img \<and> 0 < height img \<and> length (data img) = 4 * width img * height img"

text \<open>What an array read or a numeric conversion can give: a number, \<open>NaN\<close> or \<open>undefined\<close>.\<close>

datatype jsval = Num nat | NaN | Undefined

definition byte_at :: "byte list \<Rightarrow> nat \<Rightarrow> jsval" where
  "byte_at d i = (if i < length d then Num (unat (d ! i)) else Undefined)"

text \<open>\<open>a < n\<close> on a possibly undefined operand: false unless the operand is a number.\<close>

definition js_lt :: "jsval \<Rightarrow> nat \<Rightarrow> bool" where
  "js_lt v n = (case v of Num a \<Rightarrow> a < n | _ \<Rightarrow> False)"

subsection \<open>Number formatting and parsing\<close>

definition digit_char :: "nat \<Rightarrow> char" where
  "digit_char n = ''0123456789abcdef'' ! n"

function to_base :: "nat \<Rightarrow> nat \<Rightarrow> string" where
  "to_base b n =
     (if b < 2 \<or> n < b then [digit_char n] else to_base b (n div b) @ [digit_char (n mod b)])"
  by pat_completeness auto
termination
  by (relation "measure (\<lambda>(b, n). n)") auto

declare to_base.simps [simp del]

text \<open>String conversion in a template literal, and \<open>toString(16)\<close>.\<close>

definition js_toString :: "jsval \<Rightarrow> string" where
  "js_toString v =
     (case v of Num n \<Rightarrow> to_base 10 n | NaN \<Rightarrow> ''NaN'' | Undefined \<Rightarrow> ''undefined'')"

definition js_toString16 :: "jsval \<Rightarrow> string" where
  "js_toString16 v =
     (case v of Num n \<Rightarrow> to_base 16 n | NaN \<Rightarrow> ''NaN'' | Undefined \<Rightarrow> ''undefined'')"

definition digit_val :: "char \<Rightarrow> nat option" where
  "digit_val c =
     (if of_char CHR ''0'' \<le> (of_char c :: nat) \<and> (of_char c :: nat) \<le> of_char CHR ''9''
      then Some (of_char c - of_char CHR ''0'') else None)"

text \<open>
  \<open>Number(s)\<close> on the strings a colour key can hold: a run of decimal digits is its value, the
  empty string is 0, anything else (such as \<open>NaN\<close>) is \<open>NaN\<close>.
\<close>

fun parse_digits :: "nat \<Rightarrow> string \<Rightarrow> jsval" where
  "parse_digits acc [] = Num acc"
| "parse_digits acc (c # cs) =
     (case digit_val c of None \<Rightarrow> NaN | Some d \<Rightarrow> parse_digits (10 * acc + d) cs)"

definition js_Number :: "string \<Rightarrow> jsval" where
  "js_Number s = parse_digits 0 s"

text \<open>\<open>s.split(c)\<close> for a one-character separator.\<close>

fun split_on :: "char \<Rightarrow> string \<Rightarrow> string list" where
  "split_on c [] = [[]]"
| "split_on c (x # xs) =
     (if x = c then [] # split_on c xs
      else (case split_on c xs of [] \<Rightarrow> [[x]] | w # ws \<Rightarrow> (x # w) # ws))"

text \<open>Array element \<open>xs[i]\<close>, \<open>undefined\<close> past the end.\<close>

definition elem_at :: "jsval list \<Rightarrow> nat \<Rightarrow> jsval" where
  "elem_at xs i = (if i < length xs then xs ! i else Undefined)"

section \<open>Colour palette\<close>

record swatch =
  rgb :: string
  hex :: string
  frequency :: nat

text \<open>
  \<open>rgbToHex\<close>: \<open>"#" + ((1 << 24) + (r << 16) + (g << 8) + b).toString(16).slice(1)\<close>.
  A shift turns a non-number into 0; the final addition of \<open>b\<close> keeps \<open>NaN\<close>. The
  arguments are bucket floors (at most 240), far below the 32-bit range of the shifts.
\<close>

definition js_shl :: "jsval \<Rightarrow> nat \<Rightarrow> nat" where
  "js_shl v k = (case v of Num n \<Rightarrow> push_bit k n | _ \<Rightarrow> 0)"

definition rgbToHex :: "jsval \<Rightarrow> jsval \<Rightarrow> jsval \<Rightarrow> string" where
  "rgbToHex r g b =
     ''#'' @ drop 1 (js_toString16
        (case b of Num bn \<Rightarrow> Num (push_bit 24 1 + js_shl r 16 + js_shl g 8 + bn) | _ \<Rightarrow> NaN))"

text \<open>\<open>Math.floor(c / 20) * 20\<close> on a channel read.\<close>

definition quantize :: "jsval \<Rightarrow> jsval" where
  "quantize c = (case c of Num v \<Rightarrow> Num (v div 20 * 20) | _ \<Rightarrow> NaN)"

definition colorKey :: "jsval \<Rightarrow> jsval \<Rightarrow> jsval \<Rightarrow> string" where
  "colorKey r g b =
     js_toString (quantize r) @ '','' @ js_toString (quantize g) @ '','' @ js_toString (quantize b)"

text \<open>
  The \<open>Map\<close> from colour key to count keeps insertion order; \<open>set\<close> on a present key
  replaces its value in place.
\<close>

type_synonym colorMap = "(string \<times> nat) list"

fun map_set :: "colorMap \<Rightarrow> string \<Rightarrow> nat \<Rightarrow> colorMap" where
  "map_set [] k v = [(k, v)]"
| "map_set ((k', v') # m) k v = (if k' = k then (k, v) # m else (k', v') # map_set m k v)"

definition map_get_or0 :: "colorMap \<Rightarrow> string \<Rightarrow> nat" where
  "map_get_or0 m k = (case map_of m k of None \<Rightarrow> 0 | Some c \<Rightarrow> c)"

definition sampleRate :: nat where
  "sampleRate = 10"

text \<open>One iteration of the sampling loop at byte index \<open>i\<close>.\<close>

definition sampleStep :: "byte list \<Rightarrow> colorMap \<Rightarrow> nat \<Rightarrow> colorMap" where
  "sampleStep d m i =
     (let r = byte_at d i; g = byte_at d (i + 1); b = byte_at d (i + 2); a = byte_at d (i + 3)
      in if js_lt a 128 then m
         else let k = colorKey r g b in map_set m k (map_get_or0 m k + 1))"

function paletteLoop :: "byte list \<Rightarrow> nat \<Rightarrow> colorMap \<Rightarrow> colorMap" where
  "paletteLoop d i m =
     (if i < length d then paletteLoop d (i + 4 * sampleRate) (sampleStep d m i) else m)"
  by pat_completeness auto
termination
  by (relation "measure (\<lambda>(d, i, m). length d - i)") (auto simp: sampleRate_def)

declare paletteLoop.simps [simp del]

definition swatchOf :: "string \<times> nat \<Rightarrow> swatch" where
  "swatchOf e =
     (let parts = map js_Number (split_on CHR '','' (fst e));
          r = elem_at parts 0; g = elem_at parts 1; b = elem_at parts 2
      in \<lparr> rgb = ''rgb('' @ js_toString r @ '', '' @ js_toString g @ '', '' @ js_toString b @ '')'',
           hex = rgbToHex r g b,
           frequency = snd e \<rparr>)"

text \<open>
  \<open>Array.from(colorMap.entries()).sort((a, b) => b[1] - a[1]).slice(0, 8).map(...)\<close>; the
  array sort is stable, as is \<open>sort_key\<close>.
\<close>

definition sortedColors :: "imageData \<Rightarrow> swatch list" where
  "sortedColors img =
     map swatchOf (take 8 (sort_key (\<lambda>e. - int (snd e)) (paletteLoop (data img) 0 [])))"

section \<open>Text regions\<close>

text \<open>
  \<open>getGrayscale\<close>: \<open>0.299 * data[idx] + 0.587 * data[idx + 1] + 0.114 * data[idx + 2]\<close>;
  a read past the end makes the sum \<open>NaN\<close>.
\<close>

type_synonym jsnum = "rat option"

definition getGrayscale :: "byte list \<Rightarrow> nat \<Rightarrow> jsnum" where
  "getGrayscale d idx =
     (case (byte_at d idx, byte_at d (idx + 1), byte_at d (idx + 2)) of
        (Num r, Num g, Num b) \<Rightarrow>
          Some (299 / 1000 * of_nat r + 587 / 1000 * of_nat g + 114 / 1000 * of_nat b)
      | _ \<Rightarrow> None)"

text \<open>Arithmetic and comparisons that propagate \<open>NaN\<close>; a comparison with \<open>NaN\<close> is false.\<close>

definition num_lt :: "jsnum \<Rightarrow> rat \<Rightarrow> bool" where
  "num_lt a t = (case a of Some v \<Rightarrow> v < t | None \<Rightarrow> False)"

definition num_gt :: "jsnum \<Rightarrow> rat \<Rightarrow> bool" where
  "num_gt a t = (case a of Some v \<Rightarrow> t < v | None \<Rightarrow> False)"

definition num_absdiff :: "jsnum \<Rightarrow> jsnum \<Rightarrow> jsnum" where
  "num_absdiff a b = (case (a, b) of (Some u, Some v) \<Rightarrow> Some \<bar>u - v\<bar> | _ \<Rightarrow> None)"

definition num_max :: "jsnum \<Rightarrow> jsnum \<Rightarrow> jsnum" where
  "num_max a b = (case (a, b) of (Some u, Some v) \<Rightarrow> Some (max u v) | _ \<Rightarrow> None)"

definition num_add :: "jsnum \<Rightarrow> jsnum \<Rightarrow> jsnum" where
  "num_add a b = (case (a, b) of (Some u, Some v) \<Rightarrow> Some (u + v) | _ \<Rightarrow> None)"

text \<open>
  \<open>a / n\<close> for a pixel count \<open>n\<close>. With \<open>n = 0\<close> no pixel was sampled, the numerator is still
  0 and the quotient is \<open>NaN\<close>.
\<close>

definition num_div_count :: "jsnum \<Rightarrow> nat \<Rightarrow> jsnum" where
  "num_div_count a n = (case a of Some u \<Rightarrow> (if n = 0 then None else Some (u / of_nat n)) | None \<Rightarrow> None)"

text \<open>\<open>Math.min(a * k, 1)\<close>.\<close>

definition num_scale_cap :: "jsnum \<Rightarrow> rat \<Rightarrow> jsnum" where
  "num_scale_cap a k = (case a of Some u \<Rightarrow> Some (min (u * k) 1) | None \<Rightarrow> None)"

definition num_mult :: "jsnum \<Rightarrow> jsnum \<Rightarrow> jsnum" where
  "num_mult a b = (case (a, b) of (Some u, Some v) \<Rightarrow> Some (u * v) | _ \<Rightarrow> None)"

record scoreAcc =
  edgeCount :: nat
  totalPixels :: nat
  contrastSum :: jsnum

text \<open>The body of the inner loop of \<open>calculateTextScore\<close> at offset \<open>(dx, dy)\<close>.\<close>

definition scoreStep :: "byte list \<Rightarrow> nat \<Rightarrow> nat \<Rightarrow> nat \<Rightarrow> nat \<Rightarrow> nat \<Rightarrow> scoreAcc \<Rightarrow> scoreAcc" where
  "scoreStep d x y w dy dx st =
     (let idx = ((y + dy) * w + (x + dx)) * 4;
          nextIdx = ((y + dy) * w + (x + dx + 1)) * 4;
          belowIdx = ((y + dy + 1) * w + (x + dx)) * 4
      in if idx \<ge> length d \<or> nextIdx \<ge> length d \<or> belowIdx \<ge> length d then st
         else
           let current = getGrayscale d idx;
               right = getGrayscale d nextIdx;
               below = getGrayscale d belowIdx;
               horizontalEdge = num_absdiff current right;
               verticalEdge = num_absdiff current below
           in \<lparr> edgeCount =
                  (if num_gt horizontalEdge 30 \<or> num_gt verticalEdge 30
                   then edgeCount st + 1 else edgeCount st),
                totalPixels = totalPixels st + 1,
                contrastSum = num_add (contrastSum st) (num_max horizontalEdge verticalEdge) \<rparr>)"

definition scoreLoop :: "byte list \<Rightarrow> nat \<Rightarrow> nat \<Rightarrow> nat \<Rightarrow> nat \<Rightarrow> scoreAcc" where
  "scoreLoop d x y size0 w =
     fold (\<lambda>dy st. fold (scoreStep d x y w dy) [0..<size0 - 1] st) [0..<size0 - 1]
       \<lparr> edgeCount = 0, totalPixels = 0, contrastSum = Some 0 \<rparr>"

definition calculateTextScore :: "byte list \<Rightarrow> nat \<Rightarrow> nat \<Rightarrow> nat \<Rightarrow> nat \<Rightarrow> jsnum" where
  "calculateTextScore d x y size0 w =
     (let st = scoreLoop d x y size0 w;
          edgeRatio = num_div_count (Some (of_nat (edgeCount st))) (totalPixels st);
          avgContrast = num_div_count (contrastSum st) (totalPixels st)
      in num_mult (num_scale_cap edgeRatio 2) (num_scale_cap avgContrast (1 / 100)))"

record textBlock =
  tb_x :: nat
  tb_y :: nat
  tb_width :: nat
  tb_height :: nat
  confidence :: rat

definition blockSize :: nat where
  "blockSize = 20"

text \<open>
  The values of \<open>i\<close> in \<open>for (i = start; i < limit; i += step)\<close>. The limit is an integer:
  \<open>height - blockSize\<close> is negative for a small image.
\<close>

function strideFrom :: "nat \<Rightarrow> nat \<Rightarrow> int \<Rightarrow> nat list" where
  "strideFrom i step limit =
     (if 0 < step \<and> int i < limit then i # strideFrom (i + step) step limit else [])"
  by pat_completeness auto
termination
  by (relation "measure (\<lambda>(i, step, limit). nat (limit - int i))") auto

declare strideFrom.simps [simp del]

definition cellOrigins :: "imageData \<Rightarrow> (nat \<times> nat) list" where
  "cellOrigins img =
     concat (map (\<lambda>y. map (\<lambda>x. (x, y)) (strideFrom 0 blockSize (int (width img) - int blockSize)))
                 (strideFrom 0 blockSize (int (height img) - int blockSize)))"

definition cellRegion :: "imageData \<Rightarrow> nat \<times> nat \<Rightarrow> textBlock list" where
  "cellRegion img c =
     (case calculateTextScore (data img) (fst c) (snd c) blockSize (width img) of
        Some textScore \<Rightarrow>
          (if textScore > 3 / 10
           then [\<lparr> tb_x = fst c, tb_y = snd c, tb_width = blockSize, tb_height = blockSize,
                    confidence = textScore \<rparr>]
           else [])
      | None \<Rightarrow> [])"

definition textRegions :: "imageData \<Rightarrow> textBlock list" where
  "textRegions img = concat (map (cellRegion img) (cellOrigins img))"

definition areRegionsAdjacent :: "textBlock \<Rightarrow> textBlock \<Rightarrow> bool" where
  "areRegionsAdjacent region1 region2 =
     (let threshold = 30;
          horizontalOverlap =
            \<not> (int (tb_x region1 + tb_width region1) < int (tb_x region2) - threshold \<or>
               int (tb_x region2 + tb_width region2) < int (tb_x region1) - threshold);
          verticalOverlap =
            \<not> (int (tb_y region1 + tb_height region1) < int (tb_y region2) - threshold \<or>
               int (tb_y region2 + tb_height region2) < int (tb_y region1) - threshold)
      in horizontalOverlap \<and> verticalOverlap)"

text \<open>
  \<open>calculateBoundingBox\<close> is only called on a group that starts with its seed region, so the
  minima and maxima are over non-empty collections.
\<close>

definition calculateBoundingBox :: "textBlock list \<Rightarrow> textBlock" where
  "calculateBoundingBox regions =
     (let minX = Min (set (map tb_x regions));
          minY = Min (set (map tb_y regions));
          maxX = Max (set (map (\<lambda>r. tb_x r + tb_width r) regions));
          maxY = Max (set (map (\<lambda>r. tb_y r + tb_height r) regions))
      in \<lparr> tb_x = minX, tb_y = minY, tb_width = maxX - minX, tb_height = maxY - minY,
           confidence = Max (set (map confidence regions)) \<rparr>)"

text \<open>The inner loop of \<open>mergeTextRegions\<close>: absorb every unused later region adjacent to the seed.\<close>

definition absorbStep :: "textBlock list \<Rightarrow> nat \<Rightarrow> nat \<Rightarrow> textBlock list \<times> nat set \<Rightarrow> textBlock list \<times> nat set" where
  "absorbStep regions i j st =
     (case st of (grp, used) \<Rightarrow>
        if j \<in> used then (grp, used)
        else if areRegionsAdjacent (regions ! i) (regions ! j)
             then (grp @ [regions ! j], insert j used)
             else (grp, used))"

definition mergeStep :: "textBlock list \<Rightarrow> nat \<Rightarrow> textBlock list \<times> nat set \<Rightarrow> textBlock list \<times> nat set" where
  "mergeStep regions i st =
     (case st of (merged, used) \<Rightarrow>
        if i \<in> used then (merged, used)
        else
          (case fold (absorbStep regions i) [i + 1..<length regions] ([regions ! i], insert i used) of
             (grp, used') \<Rightarrow> (merged @ [calculateBoundingBox grp], used')))"

definition mergeTextRegions :: "textBlock list \<Rightarrow> textBlock list" where
  "mergeTextRegions regions = fst (fold (mergeStep regions) [0..<length regions] ([], {}))"

section \<open>Layout: sections, grid, margins\<close>

record pageSection =
  sec_type :: string
  sec_x :: nat
  sec_y :: nat
  sec_width :: nat
  sec_height :: nat

text \<open>
  \<open>horizontalProfile[y]\<close>: the number of pixels of row \<open>y\<close> with brightness below 240. (The
  source fills a \<open>verticalProfile\<close> in the same pass and never reads it.)
\<close>

definition horizontalProfile :: "imageData \<Rightarrow> nat \<Rightarrow> nat" where
  "horizontalProfile img y =
     length (filter (\<lambda>x. num_lt (getGrayscale (data img) ((y * width img + x) * 4)) 240)
               [0..<width img])"

record sectionScan =
  sectionStart :: nat
  inSection :: bool
  sections_acc :: "pageSection list"

definition sectionStep :: "imageData \<Rightarrow> nat \<Rightarrow> sectionScan \<Rightarrow> sectionScan" where
  "sectionStep img y st =
     (let hasContent = (of_nat (horizontalProfile img y) > of_nat (width img) * (1 / 10 :: rat));
          minSectionHeight = of_nat (height img) * (5 / 100 :: rat)
      in if hasContent \<and> \<not> inSection st then st\<lparr> sectionStart := y, inSection := True \<rparr>
         else if \<not> hasContent \<and> inSection st then
           (let sectionHeight = y - sectionStart st
            in st\<lparr> sections_acc :=
                      (if of_nat sectionHeight > minSectionHeight
                       then sections_acc st @
                            [\<lparr> sec_type = ''content'', sec_x = 0, sec_y = sectionStart st,
                               sec_width = width img, sec_height = sectionHeight \<rparr>]
                       else sections_acc st),
                    inSection := False \<rparr>)
         else st)"

definition detectSections :: "imageData \<Rightarrow> pageSection list" where
  "detectSections img =
     (let st = fold (sectionStep img) [0..<height img]
                 \<lparr> sectionStart = 0, inSection = False, sections_acc = [] \<rparr>
      in if inSection st
         then sections_acc st @
              [\<lparr> sec_type = ''content'', sec_x = 0, sec_y = sectionStart st,
                 sec_width = width img, sec_height = height img - sectionStart st \<rparr>]
         else sections_acc st)"

record gutters =
  horizontal :: rat
  vertical :: rat

record gridInfo =
  columns :: nat
  rows :: nat
  grid_gutters :: gutters

text \<open>\<open>Math.round(x / 10) * 10\<close> on a non-negative integer.\<close>

definition round10 :: "nat \<Rightarrow> nat" where
  "round10 x = (x + 5) div 10 * 10"

text \<open>\<open>[...new Set(xs)]\<close>: the first occurrence of each value, in order.\<close>

definition uniq :: "'a list \<Rightarrow> 'a list" where
  "uniq xs = fold (\<lambda>v acc. if v \<in> set acc then acc else acc @ [v]) xs []"

definition verticalGaps :: "nat list \<Rightarrow> rat list" where
  "verticalGaps topAlignments =
     map (\<lambda>i. of_nat (topAlignments ! i) - of_nat (topAlignments ! (i - 1)))
       [1..<length topAlignments]"

definition detectGridStructure :: "textBlock list \<Rightarrow> gridInfo" where
  "detectGridStructure textBlocks =
     (if length textBlocks < 2
      then \<lparr> columns = 1, rows = 1, grid_gutters = \<lparr> horizontal = 0, vertical = 0 \<rparr> \<rparr>
      else
        let leftAlignments = sort (map tb_x textBlocks);
            uniqueLefts = uniq (map round10 leftAlignments);
            topAlignments = sort (map tb_y textBlocks);
            gaps = verticalGaps topAlignments;
            avgVerticalGap = (if length gaps > 0 then sum_list gaps / of_nat (length gaps) else 0)
        in \<lparr> columns = length uniqueLefts,
             rows = nat \<lceil>(of_nat (length textBlocks) :: rat) / of_nat (length uniqueLefts)\<rceil>,
             grid_gutters =
               \<lparr> horizontal = avgVerticalGap,
                 vertical = (if length uniqueLefts > 1
                             then of_nat (uniqueLefts ! 1) - of_nat (uniqueLefts ! 0) else 0) \<rparr> \<rparr>)"

record margins =
  m_top :: nat
  m_bottom :: nat
  m_left :: nat
  m_right :: nat

definition rowHasContent :: "imageData \<Rightarrow> nat \<Rightarrow> bool" where
  "rowHasContent img y =
     list_ex (\<lambda>x. num_lt (getGrayscale (data img) ((y * width img + x) * 4)) 240) [0..<width img]"

definition colHasContent :: "imageData \<Rightarrow> nat \<Rightarrow> bool" where
  "colHasContent img x =
     list_ex (\<lambda>y. num_lt (getGrayscale (data img) ((y * width img + x) * 4)) 240) [0..<height img]"

definition detectMargins :: "imageData \<Rightarrow> margins" where
  "detectMargins img =
     \<lparr> m_top = (case find (rowHasContent img) [0..<height img] of Some y \<Rightarrow> y | None \<Rightarrow> 0),
       m_bottom = (case find (rowHasContent img) (rev [0..<height img]) of
                   Some y \<Rightarrow> height img - 1 - y | None \<Rightarrow> 0),
       m_left = (case find (colHasContent img) [0..<width img] of Some x \<Rightarrow> x | None \<Rightarrow> 0),
       m_right = (case find (colHasContent img) (rev [0..<width img]) of
                  Some x \<Rightarrow> width img - 1 - x | None \<Rightarrow> 0) \<rparr>"

section \<open>Design elements\<close>

record hline =
  ln_x :: int
  ln_y :: nat
  ln_length :: nat
  thickness :: nat

record lineScan =
  lineStart :: int
  lineLength :: nat
  horizontalLines :: "hline list"

text \<open>The body of the inner loop of \<open>detectDesignElements\<close> at pixel \<open>(x, y)\<close>.\<close>

definition lineStep :: "imageData \<Rightarrow> nat \<Rightarrow> nat \<Rightarrow> lineScan \<Rightarrow> lineScan" where
  "lineStep img y x st =
     (let idx = (y * width img + x) * 4;
          brightness = getGrayscale (data img) idx
      in if num_lt brightness 200
         then st\<lparr> lineStart := (if lineStart st = - 1 then int x else lineStart st),
                  lineLength := lineLength st + 1 \<rparr>
         else \<lparr> lineStart = - 1, lineLength = 0,
                horizontalLines =
                  (if of_nat (lineLength st) > of_nat (width img) * (1 / 10 :: rat)
                   then horizontalLines st @
                        [\<lparr> ln_x = lineStart st, ln_y = y, ln_length = lineLength st, thickness = 1 \<rparr>]
                   else horizontalLines st) \<rparr>)"

text \<open>One scanned row: \<open>lineStart\<close> and \<open>lineLength\<close> are re-initialised, then the row is walked.\<close>

definition rowScan :: "imageData \<Rightarrow> nat \<Rightarrow> hline list \<Rightarrow> hline list" where
  "rowScan img y ls =
     horizontalLines
       (fold (lineStep img y) [0..<width img] \<lparr> lineStart = - 1, lineLength = 0, horizontalLines = ls \<rparr>)"

definition detectedLines :: "imageData \<Rightarrow> hline list" where
  "detectedLines img = fold (rowScan img) (strideFrom 0 5 (int (height img))) []"

text \<open>
  The \<open>designElements\<close> object: the constructor's placeholder (\<open>icons\<close>, \<open>dividers\<close>,
  \<open>borders\<close>, all empty), or the object a run stores, whose \<open>verticalLines\<close> and \<open>shapes\<close>
  are always empty.
\<close>

datatype designElements = Placeholder | Elements "hline list"

section \<open>The analyzer object\<close>

record layout =
  sections :: "pageSection list"
  textBlocks :: "textBlock list"
  grid :: "gridInfo option"
  margins_of :: "margins option"

text \<open>
  \<open>analysisResults\<close>, the one mutable field of the analyzer. \<open>dimensions\<close> holds width and
  height (the \<open>aspectRatio\<close> string is a function of the two); \<open>imageAreas\<close> is never written
  and is left out.
\<close>

record analysisResults =
  dimensions :: "(nat \<times> nat) option"
  colorPalette :: "swatch list"
  fonts :: "string list"
  layout :: layout
  designElements :: designElements

definition initialResults :: analysisResults where
  "initialResults =
     \<lparr> dimensions = None, colorPalette = [], fonts = [],
       layout = \<lparr> sections = [], textBlocks = [], grid = None, margins_of = None \<rparr>,
       designElements = Placeholder \<rparr>"

definition reset :: "analysisResults \<Rightarrow> analysisResults" where
  "reset s = initialResults"

definition extractColorPalette :: "analysisResults \<Rightarrow> imageData \<Rightarrow> analysisResults" where
  "extractColorPalette s img = s\<lparr> colorPalette := sortedColors img \<rparr>"

definition detectTextRegions :: "analysisResults \<Rightarrow> imageData \<Rightarrow> analysisResults" where
  "detectTextRegions s img =
     s\<lparr> layout := (layout s)\<lparr> textBlocks := mergeTextRegions (textRegions img) \<rparr> \<rparr>"

definition analyzeLayout :: "analysisResults \<Rightarrow> imageData \<Rightarrow> analysisResults" where
  "analyzeLayout s img =
     (let s1 = s\<lparr> layout := (layout s)\<lparr> sections := detectSections img \<rparr> \<rparr>;
          s2 = s1\<lparr> layout := (layout s1)\<lparr> grid := Some (detectGridStructure (textBlocks (layout s1))) \<rparr> \<rparr>
      in s2\<lparr> layout := (layout s2)\<lparr> margins_of := Some (detectMargins img) \<rparr> \<rparr>)"

definition detectDesignElements :: "analysisResults \<Rightarrow> imageData \<Rightarrow> analysisResults" where
  "detectDesignElements s img = s\<lparr> designElements := Elements (detectedLines img) \<rparr>"

text \<open>
  \<open>analyzeTextContent\<close>: the distinct truthy \<open>fontName\<close>s of the text items, in order of first
  appearance. An item's \<open>fontName\<close> may be missing.
\<close>

definition analyzeTextContent :: "analysisResults \<Rightarrow> string option list \<Rightarrow> analysisResults" where
  "analyzeTextContent s textItems =
     s\<lparr> fonts := uniq (concat (map (\<lambda>item. case item of Some n \<Rightarrow> (if n \<noteq> [] then [n] else []) | None \<Rightarrow> [])
                                     textItems)) \<rparr>"

text \<open>
  An uploaded file: its declared MIME type, its size in bytes, and what the platform makes of
  its bytes: the decoded raster (\<open>None\<close> when the image fails to load or the PDF cannot be
  opened or rendered) and, for a PDF, the font names of the text items of page 1.
\<close>

record upload =
  ftype :: string
  fsize :: nat
  raster :: "imageData option"
  textItems :: "string option list"

datatype error = UnsupportedFileType | FailedToLoadImage | PdfFailure | IndexSizeError

type_synonym outcome = "(error + analysisResults) \<times> analysisResults"

definition pipeline :: "analysisResults \<Rightarrow> imageData \<Rightarrow> analysisResults" where
  "pipeline s img =
     (let s1 = s\<lparr> dimensions := Some (width img, height img) \<rparr>;
          s2 = extractColorPalette s1 img;
          s3 = detectTextRegions s2 img;
          s4 = analyzeLayout s3 img
      in detectDesignElements s4 img)"

text \<open>
  Each function takes the analyzer's \<open>analysisResults\<close> and returns the settled promise (the
  error, or the object resolved, which is the analyzer's own) with the analyzer's new state.
  \<open>getImageData\<close> throws on an empty rectangle before anything is stored.
\<close>

definition analyzeImage :: "analysisResults \<Rightarrow> upload \<Rightarrow> outcome" where
  "analyzeImage s imageFile =
     (case raster imageFile of
        None \<Rightarrow> (Inl FailedToLoadImage, s)
      | Some img \<Rightarrow>
          if width img = 0 \<or> height img = 0 then (Inl IndexSizeError, s)
          else let s' = pipeline s img in (Inr s', s'))"

definition analyzePDF :: "analysisResults \<Rightarrow> upload \<Rightarrow> outcome" where
  "analyzePDF s pdfFile =
     (case raster pdfFile of
        None \<Rightarrow> (Inl PdfFailure, s)
      | Some img \<Rightarrow>
          if width img = 0 \<or> height img = 0 then (Inl IndexSizeError, s)
          else let s' = analyzeTextContent (pipeline s img) (textItems pdfFile) in (Inr s', s'))"

definition startsWith :: "string \<Rightarrow> string \<Rightarrow> bool" where
  "startsWith str p = (take (length p) str = p)"

definition analyzeTemplate :: "analysisResults \<Rightarrow> upload \<Rightarrow> outcome" where
  "analyzeTemplate s f =
     (if startsWith (ftype f) ''image/'' then analyzeImage s f
      else if ftype f = ''application/pdf'' then analyzePDF s f
      else (Inl UnsupportedFileType, s))"

section \<open>The caller's validation\<close>

text \<open>\<open>isValidTemplateFile\<close> of the application, which runs before \<open>analyzeTemplate\<close>.\<close>

definition validTypes :: "string list" where
  "validTypes = [''image/jpeg'', ''image/jpg'', ''image/png'', ''application/pdf'']"

definition isValidTemplateFile :: "upload \<Rightarrow> bool" where
  "isValidTemplateFile f \<longleftrightarrow> ftype f \<in> set validTypes \<and> fsize f \<le> 10 * 1024 * 1024"

section \<open>The grid in the words of the specification\<close>

text \<open>
  The quantities the specification names, written from its words and independent of how
  \<open>detectGridStructure\<close> computes: the set of distinct left edges rounded to 10 pixels, the gap
  between the two smallest of them (0 when there is only one), and the average of the gaps
  between consecutive top edges in ascending order.
\<close>

definition spec_roundedLefts :: "textBlock list \<Rightarrow> nat set" where
  "spec_roundedLefts blocks = round10 ` tb_x ` set blocks"

definition spec_leftGap :: "textBlock list \<Rightarrow> rat" where
  "spec_leftGap blocks =
     (let S = spec_roundedLefts blocks
      in if card S > 1 then of_nat (Min (S - {Min S})) - of_nat (Min S) else 0)"

definition spec_averageGap :: "textBlock list \<Rightarrow> rat" where
  "spec_averageGap blocks =
     (let ts = sort (map tb_y blocks)
      in (\<Sum>i = 1..<length ts. of_nat (ts ! i) - of_nat (ts ! (i - 1))) / of_nat (length ts - 1))"

section \<open>Properties of inputs\<close>

text \<open>
  Predicates on images in which the theorems are stated. An image is opaque when every pixel
  has alpha at least 128, and solid when every pixel is the same RGBA quadruple. \<open>lum\<close> is the
  brightness of the pixel at \<open>(px, py)\<close>, and \<open>edgeH\<close> and \<open>edgeV\<close> are the two edge
  magnitudes \<open>calculateTextScore\<close> takes there. A row is white when no pixel of it has
  brightness below 240, and has content when more than a tenth of its pixels do; an image is
  blank when all its rows are white, and has a single band from row \<open>a\<close> to row \<open>b - 1\<close> when
  exactly these rows have content and all others are white.
\<close>

definition allOpaque :: "imageData \<Rightarrow> bool" where
  "allOpaque img =
     list_all (\<lambda>p. 128 \<le> unat (data img ! (4 * p + 3))) [0..<width img * height img]"

definition solidImage :: "imageData \<Rightarrow> byte \<Rightarrow> byte \<Rightarrow> byte \<Rightarrow> byte \<Rightarrow> bool" where
  "solidImage img r g b a \<longleftrightarrow>
     data img = concat (replicate (width img * height img) [r, g, b, a])"

definition lum :: "imageData \<Rightarrow> nat \<Rightarrow> nat \<Rightarrow> rat" where
  "lum img px py =
     (let i = (py * width img + px) * 4
      in 299 / 1000 * of_nat (unat (data img ! i)) + 587 / 1000 * of_nat (unat (data img ! (i + 1))) +
         114 / 1000 * of_nat (unat (data img ! (i + 2))))"

definition edgeH :: "imageData \<Rightarrow> nat \<Rightarrow> nat \<Rightarrow> rat" where
  "edgeH img px py = \<bar>lum img px py - lum img (px + 1) py\<bar>"

definition edgeV :: "imageData \<Rightarrow> nat \<Rightarrow> nat \<Rightarrow> rat" where
  "edgeV img px py = \<bar>lum img px py - lum img px (py + 1)\<bar>"





section \<open>Sample inputs\<close>

text \<open>
  Concrete images, block lists and uploads. \<open>stripes w h\<close> is the image of one-pixel vertical
  stripes, black in even columns and white in odd ones.
\<close>

definition whitePixel :: imageData where
  "whitePixel = \<lparr> width = 1, height = 1, data = [255, 255, 255, 255] \<rparr>"

definition redPixel :: imageData where
  "redPixel = \<lparr> width = 1, height = 1, data = [255, 0, 0, 255] \<rparr>"

definition redImage :: imageData where
  "redImage = \<lparr> width = 7, height = 3, data = concat (replicate 21 [255, 0, 0, 255]) \<rparr>"

definition twoTone :: imageData where
  "twoTone = \<lparr> width = 11, height = 1, data = [0, 0, 0, 255] @ replicate 40 255 \<rparr>"

definition threeSamples :: imageData where
  "threeSamples =
     \<lparr> width = 21, height = 1,
       data = [0, 0, 0, 255] @ replicate 36 255 @ [0, 0, 0, 255] @ replicate 36 255 @
              [255, 255, 255, 255] \<rparr>"

definition flatImage :: imageData where
  "flatImage = \<lparr> width = 41, height = 21, data = concat (replicate (41 * 21) [30, 144, 255, 255]) \<rparr>"

definition stripes :: "nat \<Rightarrow> nat \<Rightarrow> imageData" where
  "stripes w h =
     \<lparr> width = w, height = h,
       data = concat (map (\<lambda>p. if even (p mod w) then [0, 0, 0, 255] else [255, 255, 255, 255])
                       [0..<w * h]) \<rparr>"


definition narrowImage :: imageData where
  "narrowImage = stripes 20 25"

definition flushImage :: imageData where
  "flushImage = stripes 40 21"



definition darkRow :: imageData where
  "darkRow = \<lparr> width = 3, height = 1, data = [0, 0, 0, 255, 0, 0, 0, 255, 0, 0, 0, 255] \<rparr>"

definition darkRowEnded :: imageData where
  "darkRowEnded =
     \<lparr> width = 3, height = 1, data = [0, 0, 0, 255, 0, 0, 0, 255, 255, 255, 255, 255] \<rparr>"

definition block :: "nat \<Rightarrow> nat \<Rightarrow> nat \<Rightarrow> nat \<Rightarrow> rat \<Rightarrow> textBlock" where
  "block x y w h c = \<lparr> tb_x = x, tb_y = y, tb_width = w, tb_height = h, confidence = c \<rparr>"


definition columnBlocks :: "textBlock list" where
  "columnBlocks = [block 200 100 60 20 1, block 20 0 40 20 (1 / 2), block 204 40 20 20 (2 / 5),
                   block 100 0 20 20 (1 / 2)]"

definition gifUpload :: upload where
  "gifUpload = \<lparr> ftype = ''image/gif'', fsize = 4, raster = Some whitePixel, textItems = [] \<rparr>"

definition textUpload :: upload where
  "textUpload = \<lparr> ftype = ''text/plain'', fsize = 4, raster = Some whitePixel, textItems = [] \<rparr>"

definition pdfUpload :: upload where
  "pdfUpload = \<lparr> ftype = ''application/pdf'', fsize = 4, raster = Some whitePixel,
                  textItems = [Some ''Helvetica'', None, Some ''Helvetica''] \<rparr>"

definition pngUpload :: upload where
  "pngUpload = \<lparr> ftype = ''image/png'', fsize = 4, raster = Some whitePixel, textItems = [] \<rparr>"

section \<open>Dispatch on the declared type\<close>

text \<open>
  Claim C1, as the code has it. \<open>analyzeTemplate\<close> dispatches on the prefix \<open>image/\<close> and
  on the exact type \<open>application/pdf\<close>. A file whose declared type has neither form is rejected
  with the unsupported-type error and the analyzer's state is returned as it was: whatever the file
  holds, nothing is decoded, scanned or stored.
\<close>

theorem unsupported_type_rejected:
  assumes "\<not> startsWith (ftype f) ''image/''" and "ftype f \<noteq> ''application/pdf''"
  shows "analyzeTemplate s f = (Inl UnsupportedFileType, s)"
  using assms by (simp add: analyzeTemplate_def)

theorem unsupported_type_rejected_witness:
  "\<not> startsWith (ftype textUpload) ''image/'' \<and> ftype textUpload \<noteq> ''application/pdf'' \<and>
   analyzeTemplate initialResults textUpload = (Inl UnsupportedFileType, initialResults)"
proof -
  have a: "\<not> startsWith (ftype textUpload) ''image/''"
    by (simp add: textUpload_def startsWith_def)
  have b: "ftype textUpload \<noteq> ''application/pdf''"
    by (simp add: textUpload_def)
  show ?thesis
    using a b unsupported_type_rejected [OF a b, of initialResults] by simp
qed

text \<open>
  Claim C1 as stated fails on \<open>image/gif\<close>. The set of the claim is the caller's
  \<open>validTypes\<close>; \<open>image/gif\<close> is outside it, and \<open>analyzeTemplate\<close> runs the image
  pipeline on such a file and resolves with its result.
\<close>

theorem unsupported_type_counterexample:
  "ftype gifUpload \<notin> set validTypes \<and>
   fst (analyzeTemplate initialResults gifUpload) \<noteq> Inl UnsupportedFileType \<and>
   analyzeTemplate initialResults gifUpload =
     (Inr (pipeline initialResults whitePixel), pipeline initialResults whitePixel)"
  by (simp add: gifUpload_def validTypes_def analyzeTemplate_def startsWith_def analyzeImage_def
      whitePixel_def Let_def)

section \<open>Colour palette\<close>

subsection \<open>Decimal strings and colour keys\<close>

lemma to_base_digit: "n < b \<Longrightarrow> to_base b n = [digit_char n]"
  by (simp add: to_base.simps [of b n])

lemma to_base_more:
  "2 \<le> b \<Longrightarrow> b \<le> n \<Longrightarrow> to_base b n = to_base b (n div b) @ [digit_char (n mod b)]"
  by (simp add: to_base.simps [of b n])

lemmas to_base_eval = to_base_digit to_base_more digit_char_def

lemma digit_val_digit_char: "k < 10 \<Longrightarrow> digit_val (digit_char k) = Some k"
proof -
  assume "k < 10"
  then have "k = 0 \<or> k = 1 \<or> k = 2 \<or> k = 3 \<or> k = 4 \<or> k = 5 \<or> k = 6 \<or> k = 7 \<or> k = 8 \<or> k = 9"
    by arith
  then show ?thesis
    by (auto simp: digit_val_def digit_char_def)
qed

lemma digit_char_not_comma: "k < 10 \<Longrightarrow> digit_char k \<noteq> CHR '',''"
proof -
  assume "k < 10"
  then have "k = 0 \<or> k = 1 \<or> k = 2 \<or> k = 3 \<or> k = 4 \<or> k = 5 \<or> k = 6 \<or> k = 7 \<or> k = 8 \<or> k = 9"
    by arith
  then show ?thesis
    by (auto simp: digit_char_def)
qed

lemma parse_digits_snoc:
  "parse_digits acc (xs @ [c]) =
     (case parse_digits acc xs of
        Num a \<Rightarrow> (case digit_val c of None \<Rightarrow> NaN | Some d \<Rightarrow> Num (10 * a + d))
      | NaN \<Rightarrow> NaN | Undefined \<Rightarrow> Undefined)"
  by (induction xs arbitrary: acc) (auto split: option.splits)

lemma js_Number_decimal: "js_Number (to_base 10 n) = Num n"
  unfolding js_Number_def
proof (induction "10 :: nat" n rule: to_base.induct)
  case (1 n)
  show ?case
  proof (cases "n < 10")
    case True
    then show ?thesis
      by (simp add: to_base.simps [of 10 n] digit_val_digit_char)
  next
    case False
    with 1 have "parse_digits 0 (to_base 10 (n div 10)) = Num (n div 10)" by simp
    with False show ?thesis
      by (simp add: to_base.simps [of 10 n] parse_digits_snoc digit_val_digit_char)
  qed
qed

lemma decimal_no_comma: "CHR '','' \<notin> set (to_base 10 n)"
proof (induction "10 :: nat" n rule: to_base.induct)
  case (1 n)
  show ?case
  proof (cases "n < 10")
    case True
    then show ?thesis
      using digit_char_not_comma [of n] by (simp add: to_base.simps [of 10 n])
  next
    case False
    with 1 have "CHR '','' \<notin> set (to_base 10 (n div 10))" by simp
    with False show ?thesis
      using digit_char_not_comma [of "n mod 10"] by (simp add: to_base.simps [of 10 n])
  qed
qed

lemma split_on_absent: "c \<notin> set s \<Longrightarrow> split_on c s = [s]"
  by (induction s) auto

lemma split_on_first: "c \<notin> set a \<Longrightarrow> split_on c (a @ c # rest) = a # split_on c rest"
  by (induction a) (auto split: list.splits)

lemma decode_colorKey:
  "map js_Number (split_on CHR '','' (colorKey (Num r) (Num g) (Num b))) =
     [Num (r div 20 * 20), Num (g div 20 * 20), Num (b div 20 * 20)]"
  by (simp add: colorKey_def quantize_def js_toString_def split_on_first split_on_absent
      decimal_no_comma js_Number_decimal)

subsection \<open>The sampling loop and the sort\<close>

lemma map_set_not_Nil: "map_set m k v \<noteq> []"
  by (cases m) (auto split: if_splits)

lemma sampleStep_not_Nil: "m \<noteq> [] \<Longrightarrow> sampleStep d m i \<noteq> []"
  by (simp add: sampleStep_def Let_def map_set_not_Nil)

lemma paletteLoop_not_Nil: "m \<noteq> [] \<Longrightarrow> paletteLoop d i m \<noteq> []"
proof (induction d i m rule: paletteLoop.induct)
  case (1 d i m)
  then show ?case
    by (simp add: paletteLoop.simps [of d i m] sampleStep_not_Nil)
qed

lemma wf_image_first_pixel: "wf_image img \<Longrightarrow> 3 < length (data img)"
proof -
  assume "wf_image img"
  then have "0 < width img * height img" and "length (data img) = 4 * (width img * height img)"
    by (simp_all add: wf_image_def)
  then show ?thesis by linarith
qed

lemma paletteLoop_opaque_not_Nil:
  assumes "wf_image img" and "allOpaque img"
  shows "paletteLoop (data img) 0 [] \<noteq> []"
proof -
  have len: "3 < length (data img)"
    using assms(1) by (rule wf_image_first_pixel)
  have "0 < width img * height img"
    using assms(1) by (simp add: wf_image_def)
  then have "(0::nat) \<in> set [0..<width img * height img]" by simp
  moreover from assms(2)
  have "\<forall>p\<in>set [0..<width img * height img]. 128 \<le> unat (data img ! (4 * p + 3))"
    by (simp add: allOpaque_def list_all_iff)
  ultimately have "128 \<le> unat (data img ! (4 * 0 + 3))" by blast
  then have "128 \<le> unat (data img ! 3)" by simp
  with len have "sampleStep (data img) [] 0 \<noteq> []"
    by (simp add: sampleStep_def byte_at_def js_lt_def Let_def)
  then have "paletteLoop (data img) (0 + 4 * sampleRate) (sampleStep (data img) [] 0) \<noteq> []"
    by (rule paletteLoop_not_Nil)
  with len show ?thesis
    by (subst paletteLoop.simps) auto
qed

lemma same_length_not_Nil: "length xs = length ys \<Longrightarrow> ys \<noteq> [] \<Longrightarrow> xs \<noteq> []"
  by auto

lemma sort_by_count_descending:
  "sorted_wrt (\<lambda>a b. snd b \<le> snd a) (sort_key (\<lambda>e. - int (snd e)) (m :: colorMap))"
proof -
  have "sorted (map (\<lambda>e. - int (snd e)) (sort_key (\<lambda>e. - int (snd e)) m))"
    by (rule sorted_sort_key)
  then show ?thesis
    by (simp add: sorted_map)
qed

lemma frequency_swatchOf: "frequency (swatchOf e) = snd e"
  by (simp add: swatchOf_def Let_def)

lemma sortedColors_descending:
  "sorted_wrt (\<lambda>a b. frequency b \<le> frequency a) (sortedColors img)"
  unfolding sortedColors_def
  by (simp add: sorted_wrt_map frequency_swatchOf sorted_wrt_take sort_by_count_descending)

text \<open>
  Claim C2, with the order the sort gives. For an image in which every pixel has alpha at least
  128, the palette is not empty, has at most 8 swatches, and is sorted by descending frequency:
  no swatch is followed by a more frequent one. Equal frequencies can be adjacent.
\<close>

theorem palette_opaque:
  assumes "wf_image img" and "allOpaque img"
  shows "colorPalette (extractColorPalette s img) \<noteq> [] \<and>
         length (colorPalette (extractColorPalette s img)) \<le> 8 \<and>
         sorted_wrt (\<lambda>a b. frequency b \<le> frequency a) (colorPalette (extractColorPalette s img))"
proof -
  have "sort_key (\<lambda>e. - int (snd e)) (paletteLoop (data img) 0 []) \<noteq> []"
    using paletteLoop_opaque_not_Nil [OF assms] by (rule same_length_not_Nil [OF length_sort])
  then have "sortedColors img \<noteq> []"
    by (simp add: sortedColors_def)
  moreover have "length (sortedColors img) \<le> 8"
    by (simp add: sortedColors_def)
  ultimately show ?thesis
    by (simp add: extractColorPalette_def sortedColors_descending)
qed

lemma threeSamples_loop:
  "paletteLoop (data threeSamples) 0 [] = [(''0,0,0'', 2), (''240,240,240'', 1)]"
  by (simp add: threeSamples_def paletteLoop.simps sampleRate_def sampleStep_def byte_at_def js_lt_def
      colorKey_def quantize_def js_toString_def map_get_or0_def to_base_eval nth_append)

theorem palette_opaque_witness:
  "wf_image threeSamples \<and> allOpaque threeSamples \<and>
   map frequency (colorPalette (extractColorPalette initialResults threeSamples)) = [2, 1] \<and>
   colorPalette (extractColorPalette initialResults threeSamples) \<noteq> [] \<and>
   length (colorPalette (extractColorPalette initialResults threeSamples)) \<le> 8 \<and>
   sorted_wrt (\<lambda>a b. frequency b \<le> frequency a)
     (colorPalette (extractColorPalette initialResults threeSamples))"
proof -
  have a: "wf_image threeSamples"
    by (simp add: wf_image_def threeSamples_def)
  have b: "allOpaque threeSamples"
    by (simp add: allOpaque_def threeSamples_def upt_conv_Cons nth_append)
  have c: "map frequency (colorPalette (extractColorPalette initialResults threeSamples)) = [2, 1]"
    by (simp add: extractColorPalette_def sortedColors_def threeSamples_loop frequency_swatchOf)
  show ?thesis
    using a b c palette_opaque [OF a b, of initialResults] by simp
qed

lemma twoTone_loop:
  "paletteLoop (data twoTone) 0 [] = [(''0,0,0'', 1), (''240,240,240'', 1)]"
  by (simp add: twoTone_def paletteLoop.simps sampleRate_def sampleStep_def byte_at_def js_lt_def
      colorKey_def quantize_def js_toString_def map_get_or0_def to_base_eval nth_append)

lemma twoTone_palette: "map frequency (sortedColors twoTone) = [1, 1]"
  by (simp add: sortedColors_def twoTone_loop frequency_swatchOf)

text \<open>
  Claim C2 as stated fails on strictness: two buckets sampled once each are adjacent in the
  palette with equal frequencies.
\<close>

theorem palette_strict_counterexample:
  "wf_image twoTone \<and> allOpaque twoTone \<and>
   \<not> sorted_wrt (\<lambda>a b. frequency b < frequency a) (colorPalette (extractColorPalette initialResults twoTone))"
proof -
  have "wf_image twoTone" by (simp add: wf_image_def twoTone_def)
  moreover have "allOpaque twoTone"
    by (simp add: allOpaque_def twoTone_def upt_conv_Cons nth_append)
  moreover have "\<not> sorted_wrt (\<lambda>a b. b < a) (map frequency (sortedColors twoTone))"
    by (simp add: twoTone_palette)
  ultimately show ?thesis
    by (simp add: extractColorPalette_def sorted_wrt_map)
qed

subsection \<open>A solid red image\<close>

lemma solid_nth:
  "p < n \<Longrightarrow> c < 4 \<Longrightarrow> concat (replicate n [r, g, b, a]) ! (4 * p + c) = [r, g, b, a] ! c"
proof (induction n arbitrary: p)
  case 0
  then show ?case by simp
next
  case (Suc n)
  show ?case
  proof (cases p)
    case 0
    from Suc.prems(2) have "c = 0 \<or> c = 1 \<or> c = 2 \<or> c = 3" by arith
    with 0 show ?thesis by auto
  next
    case (Suc q)
    with Suc.prems have "q < n" by simp
    then have "concat (replicate n [r, g, b, a]) ! (4 * q + c) = [r, g, b, a] ! c"
      using Suc.prems(2) by (rule Suc.IH)
    moreover have "4 * p + c = 4 + (4 * q + c)" using Suc by simp
    ultimately show ?thesis
      by (simp add: nth_Cons')
  qed
qed

lemma solid_length: "length (concat (replicate n [r, g, b, a])) = 4 * n"
  by (induction n) auto

lemma solid_byte_at:
  assumes "d = concat (replicate n [r, g, b, a])" and "p < n" and "c < 4"
  shows "byte_at d (4 * p + c) = Num (unat ([r, g, b, a] ! c))"
proof -
  have "4 * p + c < length d"
    using assms by (simp add: solid_length)
  then show ?thesis
    using assms by (simp add: byte_at_def solid_nth)
qed

lemma red_key: "colorKey (Num 255) (Num 0) (Num 0) = ''240,0,0''"
  by (simp add: colorKey_def quantize_def js_toString_def to_base_eval)

lemma red_sampleStep:
  assumes "d = concat (replicate n [255, 0, 0, 255])" and "p < n"
  shows "sampleStep d m (4 * p) = map_set m ''240,0,0'' (map_get_or0 m ''240,0,0'' + 1)"
proof -
  have "byte_at d (4 * p + 0) = Num 255" "byte_at d (4 * p + 1) = Num 0"
    "byte_at d (4 * p + 2) = Num 0" "byte_at d (4 * p + 3) = Num 255"
    using solid_byte_at [OF assms, of 0] solid_byte_at [OF assms, of 1]
      solid_byte_at [OF assms, of 2] solid_byte_at [OF assms, of 3] by simp_all
  then show ?thesis
    by (simp add: sampleStep_def js_lt_def red_key Let_def)
qed

lemma count_step: "p < n \<Longrightarrow> c + 1 + (n + 9 - (p + 10)) div 10 = c + (n + 9 - p) div (10::nat)"
proof -
  assume "p < n"
  then have "n + 9 - p = (n + 9 - (p + 10)) + 10" by simp
  then have "(n + 9 - p) div 10 = (n + 9 - (p + 10)) div 10 + 1" by simp
  then show ?thesis by simp
qed

lemma red_loop:
  assumes "d = concat (replicate n [255, 0, 0, 255])"
  shows "paletteLoop d (4 * p) [(''240,0,0'', c)] = [(''240,0,0'', c + (n + 9 - p) div 10)]"
proof (induction "n - p" arbitrary: p c rule: less_induct)
  case less
  have len: "length d = 4 * n" using assms by (simp add: solid_length)
  show ?case
  proof (cases "p < n")
    case True
    then have "n - (p + 10) < n - p" by simp
    then have "paletteLoop d (4 * (p + 10)) [(''240,0,0'', c + 1)] =
               [(''240,0,0'', c + 1 + (n + 9 - (p + 10)) div 10)]"
      by (rule less)
    moreover have "c + 1 + (n + 9 - (p + 10)) div 10 = c + (n + 9 - p) div 10"
      using True by (rule count_step)
    moreover have "sampleStep d [(''240,0,0'', c)] (4 * p) = [(''240,0,0'', c + 1)]"
      using red_sampleStep [OF assms True] by (simp add: map_get_or0_def)
    ultimately show ?thesis
      using True len by (subst paletteLoop.simps) (simp add: sampleRate_def)
  next
    case False
    then have "(n + 9 - p) div 10 = 0" by simp
    with False len show ?thesis
      by (subst paletteLoop.simps) simp
  qed
qed

lemma red_palette_loop:
  assumes "d = concat (replicate n [255, 0, 0, 255])" and "0 < n"
  shows "paletteLoop d 0 [] = [(''240,0,0'', (n + 9) div 10)]"
proof -
  have len: "length d = 4 * n" using assms by (simp add: solid_length)
  have "sampleStep d [] (4 * 0) = [(''240,0,0'', 1)]"
    using red_sampleStep [OF assms] by (simp add: map_get_or0_def)
  moreover have "paletteLoop d (4 * 10) [(''240,0,0'', 1)] = [(''240,0,0'', 1 + (n + 9 - 10) div 10)]"
    by (rule red_loop [OF assms(1)])
  moreover have "1 + (n + 9 - 10) div 10 = (n + 9) div 10"
    using count_step [OF assms(2), of 0] by simp
  ultimately show ?thesis
    using len assms(2) by (subst paletteLoop.simps) (simp add: sampleRate_def)
qed

lemma red_parts: "js_Number ''240'' = Num 240 \<and> js_Number ''0'' = Num 0"
  by (simp add: js_Number_def digit_val_def)

lemma red_hex: "rgbToHex (Num 240) (Num 0) (Num 0) = ''#f00000''"
  apply (simp add: rgbToHex_def js_shl_def js_toString16_def push_bit_eq_mult)
  apply (simp add: to_base_eval)
  done

lemma red_rgb: "js_toString (Num 240) = ''240'' \<and> js_toString (Num 0) = ''0''"
  by (simp add: js_toString_def to_base_eval)

lemma red_swatch:
  "swatchOf (''240,0,0'', c) = \<lparr> rgb = ''rgb(240, 0, 0)'', hex = ''#f00000'', frequency = c \<rparr>"
  by (simp add: swatchOf_def Let_def red_parts elem_at_def red_hex red_rgb)

lemma red_sortedColors:
  assumes "wf_image img" and "solidImage img 255 0 0 255"
  shows "sortedColors img =
           [\<lparr> rgb = ''rgb(240, 0, 0)'', hex = ''#f00000'',
              frequency = (width img * height img + 9) div 10 \<rparr>]"
proof -
  have "0 < width img * height img"
    using assms(1) by (simp add: wf_image_def)
  with assms(2) have "paletteLoop (data img) 0 [] =
      [(''240,0,0'', (width img * height img + 9) div 10)]"
    unfolding solidImage_def by (rule red_palette_loop)
  then show ?thesis
    by (simp add: sortedColors_def red_swatch)
qed

text \<open>
  Claim C3, with the hex string the code produces. For an image of pure red, fully opaque pixels
  the palette is the single swatch of the bucket floors (240, 0, 0): its hex string is
  \<open>#f00000\<close>, its \<open>rgb\<close> string names the same floors, and its frequency is the number of
  sampled pixels. The path from a key back to numbers is consistent for every colour: splitting
  the key of \<open>(r, g, b)\<close> and converting the parts gives exactly the three bucket floors.
\<close>

theorem red_palette:
  assumes "wf_image img" and "solidImage img 255 0 0 255"
  shows "hex (hd (colorPalette (extractColorPalette s img))) = ''#f00000'' \<and>
         colorPalette (extractColorPalette s img) =
           [\<lparr> rgb = ''rgb(240, 0, 0)'', hex = ''#f00000'',
              frequency = (width img * height img + 9) div 10 \<rparr>] \<and>
         (\<forall>r g b. map js_Number (split_on CHR '','' (colorKey (Num r) (Num g) (Num b))) =
             [Num (r div 20 * 20), Num (g div 20 * 20), Num (b div 20 * 20)])"
  using red_sortedColors [OF assms] by (simp add: extractColorPalette_def decode_colorKey)

theorem red_palette_witness:
  "wf_image redImage \<and> solidImage redImage 255 0 0 255 \<and>
   colorPalette (extractColorPalette initialResults redImage) =
     [\<lparr> rgb = ''rgb(240, 0, 0)'', hex = ''#f00000'', frequency = 3 \<rparr>]"
proof -
  have a: "wf_image redImage"
    by (simp add: wf_image_def redImage_def solid_length)
  have b: "solidImage redImage 255 0 0 255"
    by (simp add: solidImage_def redImage_def)
  show ?thesis
    using a b red_palette [OF a b, of initialResults] by (simp add: redImage_def)
qed

text \<open>
  Claim C3 as stated fails on the hex string: for the single red pixel the top swatch is not
  \<open>#ff0000\<close>.
\<close>

theorem red_hex_counterexample:
  "wf_image redPixel \<and> solidImage redPixel 255 0 0 255 \<and>
   hex (hd (colorPalette (extractColorPalette initialResults redPixel))) \<noteq> ''#ff0000''"
proof -
  have a: "wf_image redPixel"
    by (simp add: wf_image_def redPixel_def)
  have b: "solidImage redPixel 255 0 0 255"
    by (simp add: solidImage_def redPixel_def)
  show ?thesis
    using a b red_sortedColors [OF a b] by (simp add: extractColorPalette_def)
qed

section \<open>Grid structure\<close>

lemma uniq_fold_set:
  "set (fold (\<lambda>v acc. if v \<in> set acc then acc else acc @ [v]) xs acc) = set acc \<union> set xs"
  by (induction xs arbitrary: acc) auto

lemma uniq_fold_distinct:
  "distinct acc \<Longrightarrow> distinct (fold (\<lambda>v acc. if v \<in> set acc then acc else acc @ [v]) xs acc)"
  by (induction xs arbitrary: acc) auto

lemma uniq_fold_sorted:
  "sorted (acc @ xs) \<Longrightarrow>
   sorted (fold (\<lambda>v acc. if v \<in> set acc then acc else acc @ [v]) xs acc)"
proof (induction xs arbitrary: acc)
  case Nil
  then show ?case by simp
next
  case (Cons x xs)
  show ?case
  proof (cases "x \<in> set acc")
    case True
    from Cons.prems have "sorted (acc @ xs)"
      by (auto simp: sorted_append)
    then show ?thesis
      using True Cons.IH by simp
  next
    case False
    from Cons.prems have "sorted ((acc @ [x]) @ xs)" by simp
    then show ?thesis
      using False Cons.IH by simp
  qed
qed

lemma set_uniq: "set (uniq xs) = set xs"
  by (simp add: uniq_def uniq_fold_set)

lemma distinct_uniq: "distinct (uniq xs)"
  by (simp add: uniq_def uniq_fold_distinct)

lemma sorted_uniq: "sorted xs \<Longrightarrow> sorted (uniq xs)"
  by (simp add: uniq_def uniq_fold_sorted)

lemma length_uniq: "length (uniq xs) = card (set xs)"
  using distinct_card [OF distinct_uniq, of xs] by (simp add: set_uniq)

lemma round10_mono: "x \<le> y \<Longrightarrow> round10 x \<le> round10 y"
  by (simp add: round10_def div_le_mono)

lemma sorted_rounded: "sorted (map round10 (sort xs))"
proof -
  have "sorted_wrt (\<le>) (sort xs)" by simp
  then have "sorted_wrt (\<lambda>x y. round10 x \<le> round10 y) (sort xs)"
    by (rule sorted_wrt_mono_rel [rotated]) (simp add: round10_mono)
  then show ?thesis by (simp add: sorted_map)
qed

lemma set_uniqueLefts:
  "set (uniq (map round10 (sort (map tb_x blocks)))) = spec_roundedLefts blocks"
  by (simp add: set_uniq spec_roundedLefts_def image_image)

lemma two_smallest:
  assumes "sorted l" and "distinct l" and "1 < length l"
  shows "l ! 0 = Min (set l) \<and> l ! 1 = Min (set l - {Min (set l)})"
proof -
  from assms(3) obtain a b rest where l: "l = a # b # rest"
    by (cases l; cases "tl l") auto
  from assms(1) l have a: "\<forall>x\<in>set (b # rest). a \<le> x" and b: "\<forall>x\<in>set rest. b \<le> x"
    by auto
  from a have mina: "Min (set l) = a"
    unfolding l by (intro Min_eqI) auto
  from assms(2) l have "set l - {a} = set (b # rest)" by auto
  moreover from b have "Min (set (b # rest)) = b"
    by (intro Min_eqI) auto
  ultimately show ?thesis
    using mina l by simp
qed

lemma gaps_sum:
  "sum_list (verticalGaps ts) = (\<Sum>i = 1..<length ts. of_nat (ts ! i) - of_nat (ts ! (i - 1)))"
  by (simp add: verticalGaps_def interv_sum_list_conv_sum_set_nat)

lemma length_verticalGaps: "length (verticalGaps ts) = length ts - 1"
  by (simp add: verticalGaps_def)

lemma grid_structure:
  assumes "2 \<le> length blocks"
  shows "columns (detectGridStructure blocks) = card (spec_roundedLefts blocks)"
    and "horizontal (grid_gutters (detectGridStructure blocks)) = spec_averageGap blocks"
    and "vertical (grid_gutters (detectGridStructure blocks)) = spec_leftGap blocks"
proof -
  let ?u = "uniq (map round10 (sort (map tb_x blocks)))"
  have "length ?u = card (set ?u)"
    by (simp only: length_uniq set_uniq)
  then have card: "length ?u = card (spec_roundedLefts blocks)"
    by (simp only: set_uniqueLefts)
  show "columns (detectGridStructure blocks) = card (spec_roundedLefts blocks)"
    using assms card by (simp add: detectGridStructure_def Let_def)
  have "verticalGaps (sort (map tb_y blocks)) \<noteq> []"
    using assms by (auto simp: verticalGaps_def)
  then show "horizontal (grid_gutters (detectGridStructure blocks)) = spec_averageGap blocks"
    using assms
    by (simp add: detectGridStructure_def Let_def spec_averageGap_def gaps_sum length_verticalGaps)
  have "sorted ?u" "distinct ?u"
    by (simp_all add: sorted_uniq sorted_rounded distinct_uniq)
  then have "1 < length ?u \<Longrightarrow> ?u ! 0 = Min (set ?u) \<and> ?u ! 1 = Min (set ?u - {Min (set ?u)})"
    by (rule two_smallest)
  moreover have "set ?u = spec_roundedLefts blocks"
    by (rule set_uniqueLefts)
  ultimately show "vertical (grid_gutters (detectGridStructure blocks)) = spec_leftGap blocks"
    using assms card by (simp add: detectGridStructure_def Let_def spec_leftGap_def)
qed

lemma columnBlocks_grid:
  "detectGridStructure columnBlocks =
     \<lparr> columns = 3, rows = 2, grid_gutters = \<lparr> horizontal = 100 / 3, vertical = 80 \<rparr> \<rparr>"
proof -
  have "\<lceil>(4 :: rat) / 3\<rceil> = 2"
    by (rule ceiling_unique) simp_all
  then show ?thesis
    by (simp add: detectGridStructure_def columnBlocks_def block_def Let_def round10_def uniq_def
        verticalGaps_def)
qed

text \<open>
  What \<open>detectGridStructure\<close> computes from at least two text blocks: \<open>columns\<close> is the
  number of distinct left edges rounded to the nearest 10 pixels; the field \<open>horizontal\<close> holds
  the average of the gaps between consecutive top edges sorted ascending; the field
  \<open>vertical\<close> holds the gap between the two smallest distinct rounded left edges, and 0 when
  there is only one.
\<close>

theorem grid_fields:
  assumes "2 \<le> length blocks"
  shows "columns (detectGridStructure blocks) = card (spec_roundedLefts blocks) \<and>
         horizontal (grid_gutters (detectGridStructure blocks)) = spec_averageGap blocks \<and>
         vertical (grid_gutters (detectGridStructure blocks)) = spec_leftGap blocks"
  using grid_structure [OF assms] by simp

theorem grid_fields_witness:
  "2 \<le> length columnBlocks \<and>
   detectGridStructure columnBlocks =
     \<lparr> columns = 3, rows = 2, grid_gutters = \<lparr> horizontal = 100 / 3, vertical = 80 \<rparr> \<rparr> \<and>
   card (spec_roundedLefts columnBlocks) = 3 \<and>
   spec_averageGap columnBlocks = 100 / 3 \<and> spec_leftGap columnBlocks = 80"
proof -
  have a: "2 \<le> length columnBlocks"
    by (simp add: columnBlocks_def)
  show ?thesis
    using a grid_fields [OF a] by (simp add: columnBlocks_grid)
qed


section \<open>Text regions\<close>

subsection \<open>Loops and invariants\<close>

lemma fold_invariant:
  assumes "P s" and "\<And>x s. x \<in> set xs \<Longrightarrow> P s \<Longrightarrow> P (f x s)"
  shows "P (fold f xs s)"
  using assms by (induction xs arbitrary: s) auto

lemma fold_counts:
  assumes "Q s" and "\<And>x s. x \<in> set xs \<Longrightarrow> Q s \<Longrightarrow> Q (f x s) \<and> m (f x s) = m s + (k :: nat)"
  shows "Q (fold f xs s) \<and> m (fold f xs s) = m s + k * length xs"
  using assms
proof (induction xs arbitrary: s)
  case Nil
  then show ?case by simp
next
  case (Cons a xs)
  have step: "Q (f a s) \<and> m (f a s) = m s + k"
    using Cons.prems by simp
  then have "Q (fold f xs (f a s)) \<and> m (fold f xs (f a s)) = m (f a s) + k * length xs"
    using Cons.prems(2) by (intro Cons.IH) auto
  with step show ?case by simp
qed


lemma scoreLoop_counts:
  assumes "Q \<lparr> edgeCount = 0, totalPixels = 0, contrastSum = Some 0 \<rparr>"
    and "\<And>dy dx st. dy < size0 - 1 \<Longrightarrow> dx < size0 - 1 \<Longrightarrow> Q st \<Longrightarrow>
           Q (scoreStep d x y w dy dx st) \<and>
           totalPixels (scoreStep d x y w dy dx st) = totalPixels st + 1"
  shows "Q (scoreLoop d x y size0 w) \<and>
         totalPixels (scoreLoop d x y size0 w) = (size0 - 1) * (size0 - 1)"
proof -
  have inner: "Q (fold (scoreStep d x y w dy) [0..<size0 - 1] st) \<and>
      totalPixels (fold (scoreStep d x y w dy) [0..<size0 - 1] st) = totalPixels st + (size0 - 1)"
    if "dy < size0 - 1" and "Q st" for dy st
    using fold_counts [where Q = Q and m = totalPixels and k = 1 and f = "scoreStep d x y w dy"
        and xs = "[0..<size0 - 1]" and s = st] that assms(2)
    by simp
  have "Q (fold (\<lambda>dy st. fold (scoreStep d x y w dy) [0..<size0 - 1] st) [0..<size0 - 1]
            \<lparr> edgeCount = 0, totalPixels = 0, contrastSum = Some 0 \<rparr>) \<and>
        totalPixels (fold (\<lambda>dy st. fold (scoreStep d x y w dy) [0..<size0 - 1] st) [0..<size0 - 1]
            \<lparr> edgeCount = 0, totalPixels = 0, contrastSum = Some 0 \<rparr>) =
        totalPixels \<lparr> edgeCount = 0, totalPixels = 0, contrastSum = Some 0 \<rparr> +
          (size0 - 1) * length [0..<size0 - 1]"
    using assms(1)
    by (rule fold_counts [where Q = Q and m = totalPixels and k = "size0 - 1"
          and f = "\<lambda>dy st. fold (scoreStep d x y w dy) [0..<size0 - 1] st"])
       (use inner in auto)
  then show ?thesis
    by (simp add: scoreLoop_def)
qed

lemma pixel_index: "px < w \<Longrightarrow> py < h \<Longrightarrow> py * w + px < w * (h :: nat)"
proof -
  assume "px < w" and "py < h"
  then have "py * w + px < Suc py * w" by simp
  also from \<open>py < h\<close> have "Suc py * w \<le> h * w"
    by (intro mult_le_mono1) simp
  finally show ?thesis by (simp add: mult.commute)
qed

lemma gray_inside:
  assumes "wf_image img" and "px < width img" and "py < height img"
  shows "getGrayscale (data img) ((py * width img + px) * 4) = Some (lum img px py)"
proof -
  have "py * width img + px < width img * height img"
    using assms(2,3) by (rule pixel_index)
  then have "(py * width img + px) * 4 + 2 < length (data img)"
    using assms(1) by (simp add: wf_image_def)
  then show ?thesis
    by (simp add: getGrayscale_def byte_at_def lum_def Let_def)
qed






lemma scoreStep_inside:
  assumes "wf_image img" and "x + dx + 1 < width img" and "y + dy + 1 < height img"
  shows "scoreStep (data img) x y (width img) dy dx st =
           \<lparr> edgeCount = (if 30 < edgeH img (x + dx) (y + dy) \<or> 30 < edgeV img (x + dx) (y + dy)
                           then edgeCount st + 1 else edgeCount st),
             totalPixels = totalPixels st + 1,
             contrastSum = num_add (contrastSum st)
                (Some (max (edgeH img (x + dx) (y + dy)) (edgeV img (x + dx) (y + dy)))) \<rparr>"
proof -
  define i0 where "i0 = ((y + dy) * width img + (x + dx)) * 4"
  define i1 where "i1 = ((y + dy) * width img + (x + dx + 1)) * 4"
  define i2 where "i2 = ((y + dy + 1) * width img + (x + dx)) * 4"
  have g0: "getGrayscale (data img) i0 = Some (lum img (x + dx) (y + dy))"
    unfolding i0_def using assms by (intro gray_inside) simp_all
  have g1: "getGrayscale (data img) i1 = Some (lum img (x + dx + 1) (y + dy))"
    unfolding i1_def using assms by (intro gray_inside) simp_all
  have g2: "getGrayscale (data img) i2 = Some (lum img (x + dx) (y + dy + 1))"
    unfolding i2_def using assms by (intro gray_inside) simp_all
  have "(y + dy) * width img + (x + dx) < width img * height img"
    "(y + dy) * width img + (x + dx + 1) < width img * height img"
    "(y + dy + 1) * width img + (x + dx) < width img * height img"
    using assms(2,3) pixel_index [of "x + dx" "width img" "y + dy" "height img"]
      pixel_index [of "x + dx + 1" "width img" "y + dy" "height img"]
      pixel_index [of "x + dx" "width img" "y + dy + 1" "height img"]
    by simp_all
  then have inb: "i0 < length (data img)" "i1 < length (data img)" "i2 < length (data img)"
    using assms(1) by (simp_all add: wf_image_def i0_def i1_def i2_def)
  show ?thesis
    unfolding scoreStep_def Let_def i0_def [symmetric] i1_def [symmetric] i2_def [symmetric]
    using inb
    by (simp add: g0 g1 g2 num_absdiff_def num_gt_def num_max_def edgeH_def edgeV_def)
qed

subsection \<open>Range of the score\<close>





subsection \<open>A cell inside the image\<close>



subsection \<open>Merging keeps confidences\<close>







subsection \<open>Candidate cells\<close>

lemma strideFrom_below: "x \<in> set (strideFrom i step limit) \<Longrightarrow> int x < limit"
proof (induction i step limit rule: strideFrom.induct)
  case (1 i step limit)
  then show ?case
    by (subst (asm) strideFrom.simps) (auto split: if_splits)
qed

lemma strideFrom_empty: "limit \<le> int i \<Longrightarrow> strideFrom i step limit = []"
  by (subst strideFrom.simps) simp

lemma cellOrigins_inside:
  assumes "c \<in> set (cellOrigins img)"
  shows "fst c + blockSize < width img \<and> snd c + blockSize < height img"
proof -
  from assms have "fst c \<in> set (strideFrom 0 blockSize (int (width img) - int blockSize))"
    and "snd c \<in> set (strideFrom 0 blockSize (int (height img) - int blockSize))"
    by (auto simp: cellOrigins_def)
  then have "int (fst c) < int (width img) - int blockSize"
    and "int (snd c) < int (height img) - int blockSize"
    by (auto dest: strideFrom_below)
  then show ?thesis by linarith
qed

lemma cellOrigins_small:
  assumes "width img \<le> blockSize \<or> height img \<le> blockSize"
  shows "cellOrigins img = []"
proof -
  from assms have "strideFrom 0 blockSize (int (width img) - int blockSize) = [] \<or>
      strideFrom 0 blockSize (int (height img) - int blockSize) = []"
    by (auto simp: strideFrom_empty)
  then show ?thesis
    by (auto simp: cellOrigins_def)
qed

lemma mergeTextRegions_Nil: "mergeTextRegions [] = []"
  by (simp add: mergeTextRegions_def)

subsection \<open>A solid image\<close>

lemma solid_lum:
  assumes "wf_image img" and "solidImage img r g b a" and "px < width img" and "py < height img"
  shows "lum img px py =
           299 / 1000 * of_nat (unat r) + 587 / 1000 * of_nat (unat g) + 114 / 1000 * of_nat (unat b)"
proof -
  let ?p = "py * width img + px"
  have p: "?p < width img * height img"
    using assms(3,4) by (rule pixel_index)
  have d: "data img = concat (replicate (width img * height img) [r, g, b, a])"
    using assms(2) by (simp add: solidImage_def)
  have "data img ! (4 * ?p + 0) = [r, g, b, a] ! 0" "data img ! (4 * ?p + 1) = [r, g, b, a] ! 1"
    "data img ! (4 * ?p + 2) = [r, g, b, a] ! 2"
    unfolding d using p by (intro solid_nth; simp)+
  then have "data img ! (?p * 4) = r" "data img ! (?p * 4 + 1) = g" "data img ! (?p * 4 + 2) = b"
    by (simp_all add: mult.commute)
  then show ?thesis
    by (simp add: lum_def Let_def)
qed

lemma solid_scoreLoop:
  assumes "wf_image img" and "solidImage img r g b a"
    and "x + size0 \<le> width img" and "y + size0 \<le> height img"
  shows "(edgeCount (scoreLoop (data img) x y size0 (width img)) = 0 \<and>
          contrastSum (scoreLoop (data img) x y size0 (width img)) = Some 0) \<and>
         totalPixels (scoreLoop (data img) x y size0 (width img)) = (size0 - 1) * (size0 - 1)"
proof (rule scoreLoop_counts [where Q = "\<lambda>st. edgeCount st = 0 \<and> contrastSum st = Some 0"])
  show "edgeCount \<lparr> edgeCount = 0, totalPixels = 0, contrastSum = Some 0 \<rparr> = 0 \<and>
      contrastSum \<lparr> edgeCount = 0, totalPixels = 0, contrastSum = Some 0 \<rparr> = Some 0"
    by simp
next
  fix dy dx and st :: scoreAcc
  assume "dy < size0 - 1" and "dx < size0 - 1" and st: "edgeCount st = 0 \<and> contrastSum st = Some 0"
  with assms(3,4) have in1: "x + dx + 1 < width img" and in2: "y + dy + 1 < height img"
    by simp_all
  then have "edgeH img (x + dx) (y + dy) = 0" and "edgeV img (x + dx) (y + dy) = 0"
    using assms(1,2) by (simp_all add: edgeH_def edgeV_def solid_lum)
  with st show "(edgeCount (scoreStep (data img) x y (width img) dy dx st) = 0 \<and>
      contrastSum (scoreStep (data img) x y (width img) dy dx st) = Some 0) \<and>
      totalPixels (scoreStep (data img) x y (width img) dy dx st) = totalPixels st + 1"
    by (simp add: scoreStep_inside [OF assms(1) in1 in2] num_add_def)
qed

lemma solid_score:
  assumes "wf_image img" and "solidImage img r g b a"
    and "x + size0 \<le> width img" and "y + size0 \<le> height img" and "1 < size0"
  shows "calculateTextScore (data img) x y size0 (width img) = Some 0"
proof -
  from assms(5) have "(size0 - 1) * (size0 - 1) \<noteq> 0" by simp
  with solid_scoreLoop [OF assms(1-4)] show ?thesis
    by (simp add: calculateTextScore_def Let_def num_div_count_def num_scale_cap_def num_mult_def)
qed

lemma solid_cells:
  assumes "wf_image img" and "solidImage img r g b a" and "c \<in> set (cellOrigins img)"
  shows "calculateTextScore (data img) (fst c) (snd c) blockSize (width img) = Some 0"
proof -
  from cellOrigins_inside [OF assms(3)]
  have "fst c + blockSize \<le> width img" and "snd c + blockSize \<le> height img"
    by simp_all
  with assms(1,2) show ?thesis
    by (rule solid_score) (simp add: blockSize_def)
qed

lemma solid_textRegions:
  assumes "wf_image img" and "solidImage img r g b a"
  shows "textRegions img = []"
  using solid_cells [OF assms] by (simp add: textRegions_def cellRegion_def)

subsection \<open>A striped cell\<close>










lemma narrowImage_small: "width narrowImage \<le> blockSize \<or> height narrowImage \<le> blockSize"
  by (simp add: narrowImage_def stripes_def blockSize_def)

lemma flushImage_origins: "cellOrigins flushImage = [(0, 0)]"
  by (simp add: cellOrigins_def flushImage_def stripes_def blockSize_def strideFrom.simps)

lemma flatImage_wf: "wf_image flatImage"
  by (simp add: wf_image_def flatImage_def solid_length)

lemma flatImage_solid: "solidImage flatImage 30 144 255 255"
  by (simp add: solidImage_def flatImage_def)

lemma flatImage_origins: "cellOrigins flatImage = [(0, 0), (20, 0)]"
  by (simp add: cellOrigins_def flatImage_def blockSize_def strideFrom.simps)

text \<open>
  Claim C5. In a solid image every candidate cell has text score 0, no cell is retained, and
  \<open>detectTextRegions\<close> stores an empty list of merged blocks.
\<close>

theorem flat_image_no_text:
  assumes "wf_image img" and "solidImage img r g b a"
  shows "textBlocks (layout (detectTextRegions s img)) = [] \<and>
         (\<forall>c\<in>set (cellOrigins img).
            calculateTextScore (data img) (fst c) (snd c) blockSize (width img) = Some 0)"
  using solid_textRegions [OF assms] solid_cells [OF assms]
  by (simp add: detectTextRegions_def mergeTextRegions_Nil)

theorem flat_image_no_text_witness:
  "wf_image flatImage \<and> solidImage flatImage 30 144 255 255 \<and>
   cellOrigins flatImage = [(0, 0), (20, 0)] \<and>
   textBlocks (layout (detectTextRegions initialResults flatImage)) = [] \<and>
   calculateTextScore (data flatImage) 0 0 blockSize (width flatImage) = Some 0 \<and>
   calculateTextScore (data flatImage) 20 0 blockSize (width flatImage) = Some 0"
  using flatImage_wf flatImage_solid
    flat_image_no_text [OF flatImage_wf flatImage_solid, of initialResults]
  by (simp add: flatImage_origins)



text \<open>
  Claim C10. The cell loops run while \<open>y < height - 20\<close> and \<open>x < width - 20\<close>. An image at
  most 20 pixels wide or high has no candidate cell, whatever its pixels, and
  \<open>detectTextRegions\<close> stores an empty list. In any image each candidate cell, and so each raw
  block, ends strictly before the right and bottom edges: a cell flush with an edge is never
  scored.
\<close>

theorem small_image_no_cells:
  "(width img \<le> blockSize \<or> height img \<le> blockSize \<longrightarrow>
      cellOrigins img = [] \<and> textBlocks (layout (detectTextRegions s img)) = []) \<and>
   (\<forall>c\<in>set (cellOrigins img). fst c + blockSize < width img \<and> snd c + blockSize < height img) \<and>
   (\<forall>r\<in>set (textRegions img).
      tb_x r + tb_width r < width img \<and> tb_y r + tb_height r < height img)"
proof -
  have "tb_x r + tb_width r < width img \<and> tb_y r + tb_height r < height img"
    if "r \<in> set (textRegions img)" for r
  proof -
    from that obtain c where c: "c \<in> set (cellOrigins img)" and "r \<in> set (cellRegion img c)"
      by (auto simp: textRegions_def)
    then have "tb_x r = fst c \<and> tb_y r = snd c \<and> tb_width r = blockSize \<and> tb_height r = blockSize"
      by (auto simp: cellRegion_def split: option.splits if_splits)
    with cellOrigins_inside [OF c] show ?thesis by simp
  qed
  moreover have "cellOrigins img = [] \<and> textBlocks (layout (detectTextRegions s img)) = []"
    if "width img \<le> blockSize \<or> height img \<le> blockSize"
    using cellOrigins_small [OF that]
    by (simp add: detectTextRegions_def textRegions_def mergeTextRegions_Nil)
  ultimately show ?thesis
    using cellOrigins_inside [of _ img] by blast
qed

theorem small_image_no_cells_witness:
  "(width narrowImage \<le> blockSize \<or> height narrowImage \<le> blockSize) \<and>
   textBlocks (layout (detectTextRegions initialResults narrowImage)) = [] \<and>
   cellOrigins flushImage = [(0, 0)] \<and> width flushImage = 40 \<and>
   (0 :: nat) + blockSize < width flushImage"
  using narrowImage_small small_image_no_cells [of narrowImage initialResults]
    small_image_no_cells [of flushImage initialResults]
  by (simp add: flushImage_origins) (simp add: flushImage_def stripes_def)

section \<open>Sections\<close>















section \<open>Design elements\<close>

text \<open>A row whose pixels are all dark adds no line, whatever its width.\<close>

lemma dark_row_no_line:
  assumes "\<forall>x<width img. num_lt (getGrayscale (data img) ((y * width img + x) * 4)) 200"
  shows "rowScan img y ls = ls"
proof -
  have "horizontalLines (fold (lineStep img y) [0..<width img]
      \<lparr> lineStart = - 1, lineLength = 0, horizontalLines = ls \<rparr>) = ls"
    by (rule fold_invariant [where P = "\<lambda>st. horizontalLines st = ls"])
       (use assms in \<open>simp_all add: lineStep_def Let_def\<close>)
  then show ?thesis
    by (simp add: rowScan_def)
qed

lemma darkRow_lines: "detectedLines darkRow = []"
  by (simp add: detectedLines_def darkRow_def strideFrom.simps rowScan_def upt_conv_Cons
      lineStep_def getGrayscale_def byte_at_def num_lt_def Let_def)

lemma darkRowEnded_lines:
  "detectedLines darkRowEnded = [\<lparr> ln_x = 0, ln_y = 0, ln_length = 2, thickness = 1 \<rparr>]"
  by (simp add: detectedLines_def darkRowEnded_def strideFrom.simps rowScan_def upt_conv_Cons
      lineStep_def getGrayscale_def byte_at_def num_lt_def Let_def)

text \<open>
  Claim C6, evaluated on a row of three dark pixels. The run of length 3 exceeds 10 percent of
  the width and reaches the last pixel of the row; the scan stores no line for it. The same row
  with a white last pixel gives the line of length 2 starting at \<open>x = 0\<close>.
\<close>

theorem trailing_run_dropped:
  "wf_image darkRow \<and>
   designElements (detectDesignElements initialResults darkRow) = Elements [] \<and>
   designElements (detectDesignElements initialResults darkRowEnded) =
     Elements [\<lparr> ln_x = 0, ln_y = 0, ln_length = 2, thickness = 1 \<rparr>]"
proof -
  have "wf_image darkRow"
    by (simp add: wf_image_def darkRow_def)
  then show ?thesis
    by (simp add: detectDesignElements_def darkRow_lines darkRowEnded_lines)
qed

section \<open>State across runs\<close>

lemma fonts_pipeline: "fonts (pipeline s img) = fonts s"
  by (simp add: pipeline_def Let_def detectDesignElements_def analyzeLayout_def
      detectTextRegions_def extractColorPalette_def)

lemma helvetica: "uniq [''Helvetica'', ''Helvetica''] = [''Helvetica'']"
  by (simp add: uniq_def)

text \<open>
  Claim C8, evaluated on two runs of one analyzer: a PDF whose text items name the font
  Helvetica, then a PNG. The second run resolves with the analyzer's own object, and its
  \<open>fonts\<close> list still holds Helvetica; the same PNG analysed by a fresh analyzer has no fonts.
\<close>

theorem fonts_carried_over:
  "fonts (snd (analyzeTemplate initialResults pdfUpload)) = [''Helvetica''] \<and>
   fonts (snd (analyzeTemplate (snd (analyzeTemplate initialResults pdfUpload)) pngUpload)) =
     [''Helvetica''] \<and>
   fst (analyzeTemplate (snd (analyzeTemplate initialResults pdfUpload)) pngUpload) =
     Inr (snd (analyzeTemplate (snd (analyzeTemplate initialResults pdfUpload)) pngUpload)) \<and>
   fonts (snd (analyzeTemplate initialResults pngUpload)) = []"
proof -
  have pdf: "analyzeTemplate initialResults pdfUpload =
      (Inr (analyzeTextContent (pipeline initialResults whitePixel) (textItems pdfUpload)),
       analyzeTextContent (pipeline initialResults whitePixel) (textItems pdfUpload))"
    by (simp add: analyzeTemplate_def startsWith_def analyzePDF_def pdfUpload_def whitePixel_def Let_def)
  have png: "analyzeTemplate s pngUpload = (Inr (pipeline s whitePixel), pipeline s whitePixel)" for s
    by (simp add: analyzeTemplate_def startsWith_def analyzeImage_def pngUpload_def whitePixel_def Let_def)
  have items: "fonts (analyzeTextContent s (textItems pdfUpload)) = [''Helvetica'']" for s
    by (simp add: analyzeTextContent_def pdfUpload_def helvetica)
  have "fonts initialResults = []"
    by (simp add: initialResults_def)
  then show ?thesis
    by (simp add: pdf png fonts_pipeline items)
qed

end
